theory Spec2Isabelle
  imports Main
begin

section \<open>Python strings\<close>

text \<open>
  A Python \<open>str\<close> is modelled as a \<open>string\<close> whose characters are the code points
  0 to 255 (Latin-1). The character classes below are those of CPython on that range:
  \<open>str.strip()\<close> and the pattern \<open>\s\<close> of \<open>re\<close> share one notion of white space,
  \<open>\b\<close> uses the word characters of \<open>\w\<close>, and \<open>re.IGNORECASE\<close> compares lower-cased
  characters. \<open>int()\<close> skips a smaller set of white space around its literal.
\<close>

definition isspace :: "char \<Rightarrow> bool" where
  "isspace c =
     (let n = (of_char c :: nat)
      in (9 \<le> n \<and> n \<le> 13) \<or> (28 \<le> n \<and> n \<le> 32) \<or> n = 133 \<or> n = 160)"

definition isword :: "char \<Rightarrow> bool" where
  \<comment> \<open>\<open>\w\<close>: letters, decimal digits, other digits and numerics, and the underscore\<close>
  "isword c =
     (let n = (of_char c :: nat)
      in (48 \<le> n \<and> n \<le> 57) \<or> (65 \<le> n \<and> n \<le> 90) \<or> n = 95 \<or> (97 \<le> n \<and> n \<le> 122)
         \<or> n = 170 \<or> n = 178 \<or> n = 179 \<or> n = 181 \<or> n = 185 \<or> n = 186
         \<or> n = 188 \<or> n = 189 \<or> n = 190
         \<or> (192 \<le> n \<and> n \<le> 214) \<or> (216 \<le> n \<and> n \<le> 246) \<or> (248 \<le> n \<and> n \<le> 255))"

definition lower_char :: "char \<Rightarrow> char" where
  \<comment> \<open>the simple lower-case mapping that \<open>re.IGNORECASE\<close> applies to a character\<close>
  "lower_char c =
     (let n = (of_char c :: nat)
      in if (65 \<le> n \<and> n \<le> 90) \<or> (192 \<le> n \<and> n \<le> 222 \<and> n \<noteq> 215)
         then char_of (n + 32) else c)"

definition upper_char :: "char \<Rightarrow> string" where
  \<comment> \<open>\<open>str.upper()\<close> on one character: the sharp s (223) becomes \<open>SS\<close>. The capitals of
      the micro sign (181) and of y with diaeresis (255) lie above 255; the two are kept,
      which no search for a word of ASCII letters can tell apart.\<close>
  "upper_char c =
     (let n = (of_char c :: nat)
      in if n = 223 then ''SS''
         else if (97 \<le> n \<and> n \<le> 122) \<or> (224 \<le> n \<and> n \<le> 254 \<and> n \<noteq> 247)
         then [char_of (n - 32)] else [c])"

definition upper :: "string \<Rightarrow> string" where
  "upper s = concat (map upper_char s)"

definition strip :: "string \<Rightarrow> string" where
  "strip s = rev (dropWhile isspace (rev (dropWhile isspace s)))"

fun startswith :: "string \<Rightarrow> string \<Rightarrow> bool" where
  "startswith s [] = True"
| "startswith [] (k # ks) = False"
| "startswith (c # cs) (k # ks) = (c = k \<and> startswith cs ks)"

fun contains :: "string \<Rightarrow> string \<Rightarrow> bool" where
  \<comment> \<open>\<open>contains s kw\<close> is Python's \<open>kw in s\<close>\<close>
  "contains [] kw = (kw = [])"
| "contains (c # cs) kw = (startswith (c # cs) kw \<or> contains cs kw)"

section \<open>Errors\<close>

text \<open>
  Modelled from the spec: the exception class \<open>RateLimited\<close> of \<open>utils/errors.py\<close>,
  which is not among the sources. It is built from the retry-after seconds and keeps them
  as \<open>retry_after\<close>.

  Every exception that the modelled code can raise is a value of \<open>error\<close>.
  \<open>InvalidLiteral s\<close> is the \<open>ValueError\<close> that \<open>int(s)\<close> raises for a text that is
  no integer literal; \<open>ValueError m\<close> is one raised with the message \<open>m\<close>.
\<close>

datatype error =
    ValueError string
  | InvalidLiteral string
  | RateLimited int
  | RuntimeError string
  | TypeError
  | AttributeError
  | KeyError string
  | HTTPStatusError int
  | JSONDecodeError

section \<open>The query validator (utils/cbql\_validator.py)\<close>

definition FORBIDDEN_KEYWORDS :: "string list" where
  "FORBIDDEN_KEYWORDS = [''SELECT'', ''UPDATE'', ''DELETE'', ''INSERT'', ''JOIN'']"

text \<open>
  \<open>SCOPE_PATTERN\<close> is \<open>\b(tracker\s*=|tracker\s+IN|project\s*=)\<close>, compiled with
  \<open>re.IGNORECASE\<close>. \<open>match_literal p s\<close> matches the letters \<open>p\<close> at the start of \<open>s\<close>
  ignoring case and returns the rest of \<open>s\<close>. A run of \<open>\s\<close> is followed in each
  alternative by a character that is no white space (\<open>=\<close> or \<open>I\<close>), so the run that
  matches is the whole run of white space.
\<close>

fun match_literal :: "string \<Rightarrow> string \<Rightarrow> string option" where
  "match_literal [] s = Some s"
| "match_literal (p # ps) [] = None"
| "match_literal (p # ps) (c # cs) =
     (if lower_char c = lower_char p then match_literal ps cs else None)"

definition spaces_then :: "bool \<Rightarrow> string \<Rightarrow> string \<Rightarrow> bool" where
  \<comment> \<open>\<open>\s*lit\<close> (or \<open>\s+lit\<close> when \<open>some\<close>) at the start of \<open>s\<close>\<close>
  "spaces_then some lit s =
     ((some \<longrightarrow> (case s of [] \<Rightarrow> False | c # _ \<Rightarrow> isspace c))
      \<and> match_literal lit (dropWhile isspace s) \<noteq> None)"

definition keyword_then :: "string \<Rightarrow> bool \<Rightarrow> string \<Rightarrow> string \<Rightarrow> bool" where
  "keyword_then word some lit s =
     (case match_literal word s of None \<Rightarrow> False | Some r \<Rightarrow> spaces_then some lit r)"

definition word_boundary :: "char option \<Rightarrow> string \<Rightarrow> bool" where
  \<comment> \<open>\<open>\b\<close> between the character before the position, if any, and the text after it\<close>
  "word_boundary prev s =
     ((case prev of None \<Rightarrow> False | Some c \<Rightarrow> isword c)
      \<noteq> (case s of [] \<Rightarrow> False | c # _ \<Rightarrow> isword c))"

definition scope_at :: "char option \<Rightarrow> string \<Rightarrow> bool" where
  "scope_at prev s =
     (word_boundary prev s
      \<and> (keyword_then ''tracker'' False ''='' s
         \<or> keyword_then ''tracker'' True ''IN'' s
         \<or> keyword_then ''project'' False ''='' s))"

fun search_from :: "char option \<Rightarrow> string \<Rightarrow> bool" where
  \<comment> \<open>\<open>search\<close> tries every position from left to right\<close>
  "search_from prev [] = scope_at prev []"
| "search_from prev (c # cs) = (scope_at prev (c # cs) \<or> search_from (Some c) cs)"

definition SCOPE_PATTERN_search :: "string \<Rightarrow> bool" where
  "SCOPE_PATTERN_search s = search_from None s"

definition forbidden_message :: "string \<Rightarrow> string" where
  "forbidden_message kw =
     ''Invalid CBQL: '' @ [CHR 0x27] @ kw @ [CHR 0x27] @ '' is not supported. CBQL is not SQL.''"

definition validate_cbql :: "string \<Rightarrow> error + string" where
  "validate_cbql cbql =
     (if cbql = [] \<or> strip cbql = [] then Inl (ValueError ''CBQL cannot be empty'')
      else case find (\<lambda>kw. contains (upper cbql) kw) FORBIDDEN_KEYWORDS of
          Some kw \<Rightarrow> Inl (ValueError (forbidden_message kw))
        | None \<Rightarrow>
            if \<not> SCOPE_PATTERN_search cbql
            then Inl (ValueError ''Invalid CBQL: tracker or project scope is required.'')
            else if CHR '';'' \<in> set cbql
            then Inl (ValueError ''Multiple CBQL statements are not allowed.'')
            else Inr (strip cbql))"

section \<open>Python integers and text\<close>

definition isdigit :: "char \<Rightarrow> bool" where
  "isdigit c = (let n = (of_char c :: nat) in 48 \<le> n \<and> n \<le> 57)"

definition digit_value :: "char \<Rightarrow> nat" where
  "digit_value c = of_char c - 48"

fun digits_from :: "nat \<Rightarrow> string \<Rightarrow> nat option" where
  \<comment> \<open>the rest of a decimal literal after a digit: digits, with single underscores
      allowed between two digits\<close>
  "digits_from acc [] = Some acc"
| "digits_from acc [c] = (if isdigit c then Some (10 * acc + digit_value c) else None)"
| "digits_from acc (c # d # cs) =
     (if isdigit c then digits_from (10 * acc + digit_value c) (d # cs)
      else if c = CHR ''_'' \<and> isdigit d then digits_from (10 * acc + digit_value d) cs
      else None)"

definition decimal_literal :: "string \<Rightarrow> nat option" where
  "decimal_literal s =
     (case s of [] \<Rightarrow> None
      | c # cs \<Rightarrow> if isdigit c then digits_from (digit_value c) cs else None)"

definition max_str_digits :: nat where
  \<comment> \<open>\<open>sys.int_info.default_max_str_digits\<close>\<close>
  "max_str_digits = 4300"

definition isspace_int :: "char \<Rightarrow> bool" where
  \<comment> \<open>the white space that \<open>int()\<close> skips before and after the literal: the ASCII
      white space, and of the characters above 127 those of \<open>str.isspace()\<close>; the
      separators 28 to 31 are not among them\<close>
  "isspace_int c =
     (let n = (of_char c :: nat) in (9 \<le> n \<and> n \<le> 13) \<or> n = 32 \<or> n = 133 \<or> n = 160)"

definition int_of_str :: "string \<Rightarrow> error + int" where
  \<comment> \<open>\<open>int(s)\<close> for a \<open>str\<close>: white space around, an optional sign, a decimal literal\<close>
  "int_of_str s =
     (let t = rev (dropWhile isspace_int (rev (dropWhile isspace_int s)));
          neg = (case t of [] \<Rightarrow> False | c # _ \<Rightarrow> c = CHR ''-'');
          body = (case t of [] \<Rightarrow> []
                  | c # cs \<Rightarrow> if c = CHR ''+'' \<or> c = CHR ''-'' then cs else t)
      in if max_str_digits < length (filter isdigit body) then Inl (InvalidLiteral s)
         else case decimal_literal body of
             None \<Rightarrow> Inl (InvalidLiteral s)
           | Some n \<Rightarrow> Inr (if neg then - int n else int n))"

fun str_nat :: "nat \<Rightarrow> string" where
  "str_nat n =
     (if n < 10 then [char_of (48 + n)] else str_nat (n div 10) @ [char_of (48 + n mod 10)])"

declare str_nat.simps [simp del]

definition str_int :: "int \<Rightarrow> string" where
  \<comment> \<open>\<open>str(i)\<close>, which is also how an f-string renders an \<open>int\<close>\<close>
  "str_int i = (if i < 0 then CHR ''-'' # str_nat (nat (- i)) else str_nat (nat i))"

section \<open>JSON values and HTTP messages\<close>

text \<open>
  A decoded JSON document; an object is a Python \<open>dict\<close>, kept as an association list
  that is read with \<open>map_of\<close>; its keys are distinct, as those of a \<open>dict\<close> are.
  Numbers are integers.
\<close>

datatype json =
    JNull
  | JBool bool
  | JInt int
  | JStr string
  | JArr "json list"
  | JObj "(string \<times> json) list"

record http_request =
  authorization :: "string option"
  http_method :: string
  path :: string
  json_body :: "json option"

record http_response =
  status_code :: int
  headers :: "string \<Rightarrow> string option"
  content :: "json option"

text \<open>
  The remote service together with the transport: the response that a request receives.
  \<open>content\<close> is what \<open>resp.json()\<close> decodes, \<open>None\<close> when the body is not JSON;
  \<open>headers\<close> is the lookup of \<open>resp.headers\<close>.
\<close>

type_synonym remote = "http_request \<Rightarrow> http_response"

section \<open>The gateway (utils/codebeamer\_client.py)\<close>

definition retry_after :: "http_response \<Rightarrow> error + int" where
  \<comment> \<open>\<open>int(resp.headers.get("Retry-After", 30))\<close>\<close>
  "retry_after resp =
     (case headers resp ''Retry-After'' of None \<Rightarrow> Inr 30 | Some v \<Rightarrow> int_of_str v)"

definition raise_for_status :: "http_response \<Rightarrow> error + unit" where
  \<comment> \<open>\<open>resp.raise_for_status()\<close>: every status outside 200 to 299 raises\<close>
  "raise_for_status resp =
     (if 200 \<le> status_code resp \<and> status_code resp \<le> 299 then Inr ()
      else Inl (HTTPStatusError (status_code resp)))"

definition request :: "remote \<Rightarrow> string option \<Rightarrow> string \<Rightarrow> string \<Rightarrow> json option \<Rightarrow> error + json" where
  "request remote token meth pth js =
     (let resp = remote \<lparr>authorization = token, http_method = meth, path = pth, json_body = js\<rparr>
      in if status_code resp = 429
         then (case retry_after resp of Inl e \<Rightarrow> Inl e | Inr retry \<Rightarrow> Inl (RateLimited retry))
         else case raise_for_status resp of
             Inl e \<Rightarrow> Inl e
           | Inr _ \<Rightarrow> (case content resp of None \<Rightarrow> Inl JSONDecodeError | Some j \<Rightarrow> Inr j))"

section \<open>The tools (main.py)\<close>

definition truthy :: "string option \<Rightarrow> bool" where
  "truthy v = (case v of None \<Rightarrow> False | Some s \<Rightarrow> s \<noteq> [])"

definition access_token :: "(string \<Rightarrow> string option) \<Rightarrow> string option" where
  \<comment> \<open>\<open>get("authorization") or get("Authorization") or get("x-access-token")\<close>\<close>
  "access_token received_headers =
     (if truthy (received_headers ''authorization'') then received_headers ''authorization''
      else if truthy (received_headers ''Authorization'') then received_headers ''Authorization''
      else received_headers ''x-access-token'')"

datatype event = START | PROGRESS int nat

record trace =
  events :: "event list"
  requests :: "http_request list"

record query_result =
  totalCount :: nat
  items :: "json list"

definition bind_err :: "error + 'a \<Rightarrow> ('a \<Rightarrow> error + 'b) \<Rightarrow> error + 'b" where
  \<comment> \<open>an exception ends the evaluation; a value goes on\<close>
  "bind_err m f = (case m of Inl e \<Rightarrow> Inl e | Inr v \<Rightarrow> f v)"

definition dict_get :: "json \<Rightarrow> string \<Rightarrow> json \<Rightarrow> error + json" where
  \<comment> \<open>\<open>d.get(key, default)\<close>: only a \<open>dict\<close> has it\<close>
  "dict_get d key dflt =
     (case d of
        JObj kvs \<Rightarrow> Inr (case map_of kvs key of None \<Rightarrow> dflt | Some v \<Rightarrow> v)
      | _ \<Rightarrow> Inl AttributeError)"

definition subscript :: "json \<Rightarrow> string \<Rightarrow> error + json" where
  \<comment> \<open>\<open>d[key]\<close> for a text key\<close>
  "subscript d key =
     (case d of
        JObj kvs \<Rightarrow> (case map_of kvs key of None \<Rightarrow> Inl (KeyError key) | Some v \<Rightarrow> Inr v)
      | _ \<Rightarrow> Inl TypeError)"

definition iterate :: "json \<Rightarrow> error + json list" where
  \<comment> \<open>the elements that \<open>list.extend\<close> takes from its argument\<close>
  "iterate v =
     (case v of
        JArr xs \<Rightarrow> Inr xs
      | JStr s \<Rightarrow> Inr (map (\<lambda>c. JStr [c]) s)
      | JObj kvs \<Rightarrow> Inr (map (\<lambda>kv. JStr (fst kv)) kvs)
      | _ \<Rightarrow> Inl TypeError)"

definition page_request :: "string option \<Rightarrow> string \<Rightarrow> int \<Rightarrow> int option \<Rightarrow> http_request" where
  "page_request token cbql page page_size =
     \<lparr>authorization = token, http_method = ''POST'', path = ''/v3/items/query'',
      json_body = Some (JObj [(''queryString'', JStr cbql), (''page'', JInt page),
        (''pageSize'', case page_size of None \<Rightarrow> JNull | Some n \<Rightarrow> JInt n)])\<rparr>"

definition fetch_page :: "remote \<Rightarrow> string option \<Rightarrow> string \<Rightarrow> int option \<Rightarrow> int \<Rightarrow> error + json list" where
  \<comment> \<open>one page: the request, \<open>result.get("items", [])\<close>, and the elements that
      \<open>all_items.extend(items)\<close> appends; \<open>len(items)\<close> is their number\<close>
  "fetch_page remote token cbql page_size page =
     (case request remote token ''POST'' ''/v3/items/query''
             (json_body (page_request token cbql page page_size)) of
        Inl e \<Rightarrow> Inl e
      | Inr result \<Rightarrow>
          (case dict_get result ''items'' (JArr []) of
             Inl e \<Rightarrow> Inl e
           | Inr its \<Rightarrow> iterate its))"

text \<open>
  The body of \<open>while True\<close> in \<open>query_items\<close>. The loop has no bound of its own, so the
  result is an \<open>option\<close>: \<open>None\<close> is a run that does not return. A run that returns
  gives the value or the exception, and the trace of what it did: the events passed to
  \<open>ctx.stream\<close> and the requests made through the gateway.
\<close>

partial_function (option) query_loop ::
  "remote \<Rightarrow> string option \<Rightarrow> string \<Rightarrow> int option \<Rightarrow> int \<Rightarrow> json list \<Rightarrow> trace
     \<Rightarrow> ((error + query_result) \<times> trace) option" where
  "query_loop remote token cbql page_size page all_items tr =
     (let tr1 = tr\<lparr>requests := requests tr @ [page_request token cbql page page_size]\<rparr>
      in case fetch_page remote token cbql page_size page of
           Inl e \<Rightarrow> Some (Inl e, tr1)
         | Inr its \<Rightarrow>
             (let all_items' = all_items @ its;
                  tr2 = tr1\<lparr>events := events tr1 @ [PROGRESS page (length its)]\<rparr>
              in case page_size of
                   None \<Rightarrow> Some (Inl TypeError, tr2)
                 | Some sz \<Rightarrow>
                     if int (length its) < sz
                     then Some (Inr \<lparr>totalCount = length all_items', items = all_items'\<rparr>, tr2)
                     else query_loop remote token cbql page_size (page + 1) all_items' tr2))"

definition query_items ::
  "remote \<Rightarrow> (string \<Rightarrow> string option) \<Rightarrow> string \<Rightarrow> int option
     \<Rightarrow> ((error + query_result) \<times> trace) option" where
  "query_items remote received_headers cbql page_size =
     (case query_loop remote (access_token received_headers) cbql page_size 1 []
             \<lparr>events = [START], requests = []\<rparr> of
        None \<Rightarrow> None
      | Some (Inl (RateLimited retry), tr) \<Rightarrow>
          Some (Inl (RuntimeError (''RATE_LIMITED: '' @ str_int retry)), tr)
      | Some (r, tr) \<Rightarrow> Some (r, tr))"

definition get_project_details ::
  "remote \<Rightarrow> (string \<Rightarrow> string option) \<Rightarrow> int \<Rightarrow> error + json" where
  "get_project_details remote received_headers project_id =
     (case request remote (access_token received_headers) ''GET''
             (''/v3/projects/'' @ str_int project_id) None of
        Inl (RateLimited retry) \<Rightarrow> Inl (RuntimeError (''RATE_LIMITED:'' @ str_int retry))
      | Inl e \<Rightarrow> Inl e
      | Inr project \<Rightarrow>
          bind_err (subscript project ''id'') (\<lambda>i.
          bind_err (subscript project ''name'') (\<lambda>n.
          bind_err (dict_get project ''description'' JNull) (\<lambda>d.
          bind_err (dict_get project ''key'' JNull) (\<lambda>k.
          bind_err (dict_get project ''createdAt'' JNull) (\<lambda>c.
          bind_err (dict_get project ''status'' JNull) (\<lambda>s.
            Inr (JObj [(''id'', i), (''name'', n), (''description'', d), (''key'', k),
              (''createdAt'', c), (''status'', s)]))))))))"

section \<open>Stub remote services\<close>

text \<open>
  Remote services for running the tools on concrete inputs: one answers a request by the
  page number in its body, with a page of items or with a rate-limit response.
\<close>

definition page_of :: "http_request \<Rightarrow> int" where
  "page_of req =
     (case json_body req of
        Some (JObj kvs) \<Rightarrow> (case map_of kvs ''page'' of Some (JInt p) \<Rightarrow> p | _ \<Rightarrow> 0)
      | _ \<Rightarrow> 0)"

definition stub_remote :: "(int \<Rightarrow> http_response) \<Rightarrow> remote" where
  "stub_remote answer req = answer (page_of req)"

definition items_response :: "json list \<Rightarrow> http_response" where
  "items_response its =
     \<lparr>status_code = 200, headers = (\<lambda>h. None), content = Some (JObj [(''items'', JArr its)])\<rparr>"

definition rate_limit_response :: "string option \<Rightarrow> http_response" where
  "rate_limit_response v =
     \<lparr>status_code = 429, headers = (\<lambda>h. if h = ''Retry-After'' then v else None),
      content = None\<rparr>"

section \<open>Properties of the validator\<close>

subsection \<open>Character classes\<close>






lemma upper_append: "upper (a @ b) = upper a @ upper b"
  by (simp add: upper_def)


subsection \<open>strip\<close>

lemma dropWhile_strip:
  "dropWhile isspace s = strip s @ rev (takeWhile isspace (rev (dropWhile isspace s)))"
proof -
  let ?d = "dropWhile isspace s"
  have "rev (rev ?d) = rev (takeWhile isspace (rev ?d) @ dropWhile isspace (rev ?d))"
    by (simp only: takeWhile_dropWhile_id)
  then show ?thesis
    by (simp only: rev_rev_ident rev_append strip_def)
qed

lemma strip_decomp:
  "\<exists>l r. s = l @ strip s @ r \<and> (\<forall>c\<in>set l. isspace c) \<and> (\<forall>c\<in>set r. isspace c)"
proof -
  let ?l = "takeWhile isspace s"
  let ?r = "rev (takeWhile isspace (rev (dropWhile isspace s)))"
  have "s = ?l @ dropWhile isspace s" by simp
  with dropWhile_strip [of s] have "s = ?l @ strip s @ ?r" by simp
  moreover have "\<forall>c\<in>set ?l. isspace c" by (auto dest: set_takeWhileD)
  moreover have "\<forall>c\<in>set ?r. isspace c" by (auto dest: set_takeWhileD)
  ultimately show ?thesis by blast
qed





subsection \<open>Substrings\<close>

lemma startswith_iff: "startswith s kw \<longleftrightarrow> (\<exists>r. s = kw @ r)"
  by (induction s kw rule: startswith.induct) auto

lemma contains_iff: "contains s kw \<longleftrightarrow> (\<exists>p r. s = p @ kw @ r)"
proof (induction s)
  case Nil
  then show ?case by auto
next
  case (Cons c cs)
  show ?case
  proof
    assume "contains (c # cs) kw"
    then consider "startswith (c # cs) kw" | "contains cs kw" by auto
    then show "\<exists>p r. c # cs = p @ kw @ r"
    proof cases
      case 1
      then obtain r where "c # cs = [] @ kw @ r" by (auto simp: startswith_iff)
      then show ?thesis by blast
    next
      case 2
      with Cons obtain p r where "cs = p @ kw @ r" by blast
      then have "c # cs = (c # p) @ kw @ r" by simp
      then show ?thesis by blast
    qed
  next
    assume "\<exists>p r. c # cs = p @ kw @ r"
    then obtain p r where pr: "c # cs = p @ kw @ r" by blast
    show "contains (c # cs) kw"
    proof (cases p)
      case Nil
      with pr have "startswith (c # cs) kw" by (auto simp: startswith_iff)
      then show ?thesis by simp
    next
      case (Cons a p')
      with pr have "cs = p' @ kw @ r" by simp
      with Cons.IH have "contains cs kw" by blast
      then show ?thesis by simp
    qed
  qed
qed

lemma contains_embed: "contains s kw \<Longrightarrow> contains (l @ s @ r) kw"
proof -
  assume "contains s kw"
  then obtain p q where "s = p @ kw @ q" by (auto simp: contains_iff)
  then have "l @ s @ r = (l @ p) @ kw @ (q @ r)" by simp
  then show ?thesis unfolding contains_iff by blast
qed

lemma contains_upper_embed: "contains (upper s) kw \<Longrightarrow> contains (upper (l @ s @ r)) kw"
  by (simp add: upper_append contains_embed)

subsection \<open>The scope pattern under strip\<close>















subsection \<open>When a query is accepted\<close>

lemma validate_cbql_Inr_iff:
  "validate_cbql q = Inr v \<longleftrightarrow>
     strip q \<noteq> [] \<and> (\<forall>kw\<in>set FORBIDDEN_KEYWORDS. \<not> contains (upper q) kw)
     \<and> SCOPE_PATTERN_search q \<and> CHR '';'' \<notin> set q \<and> v = strip q"
proof (cases "find (\<lambda>kw. contains (upper q) kw) FORBIDDEN_KEYWORDS")
  case None
  then have "\<forall>kw\<in>set FORBIDDEN_KEYWORDS. \<not> contains (upper q) kw"
    by (simp add: find_None_iff)
  moreover have "strip [] = []" by (simp add: strip_def)
  ultimately show ?thesis using None by (auto simp: validate_cbql_def)
next
  case (Some kw)
  then have "kw \<in> set FORBIDDEN_KEYWORDS" "contains (upper q) kw"
    by (auto simp: find_Some_iff)
  then show ?thesis using Some by (auto simp: validate_cbql_def)
qed

section \<open>Running the pagination loop\<close>

text \<open>One pass through the body of the loop, by the way it ends.\<close>

lemma query_loop_error:
  assumes "fetch_page remote token cbql page_size page = Inl e"
  shows "query_loop remote token cbql page_size page acc tr =
         Some (Inl e, tr\<lparr>requests := requests tr @ [page_request token cbql page page_size]\<rparr>)"
  using assms by (subst query_loop.simps) simp

lemma query_loop_short:
  assumes "fetch_page remote token cbql (Some sz) page = Inr its" and "int (length its) < sz"
  shows "query_loop remote token cbql (Some sz) page acc tr =
         Some (Inr \<lparr>totalCount = length (acc @ its), items = acc @ its\<rparr>,
               \<lparr>events = events tr @ [PROGRESS page (length its)],
                requests = requests tr @ [page_request token cbql page (Some sz)]\<rparr>)"
  using assms by (subst query_loop.simps) simp


lemma query_loop_full:
  assumes "fetch_page remote token cbql page_size page = Inr its"
    and "page_size = Some sz" and "\<not> int (length its) < sz"
  shows "query_loop remote token cbql page_size page acc tr =
         query_loop remote token cbql page_size (page + 1) (acc @ its)
               \<lparr>events = events tr @ [PROGRESS page (length its)],
                requests = requests tr @ [page_request token cbql page page_size]\<rparr>"
  using assms by (cases tr) (subst query_loop.simps, simp)

text \<open>
  \<open>m\<close> full pages in a row, starting at \<open>page\<close>: the loop goes on at \<open>page + m\<close> with
  their items appended in order, one event and one request for each.
\<close>

lemma query_loop_full_pages:
  assumes "\<forall>k<m. fetch_page remote token cbql page_size (page + int k) = Inr (pg k)
              \<and> (\<exists>sz. page_size = Some sz \<and> \<not> int (length (pg k)) < sz)"
  shows "query_loop remote token cbql page_size page acc tr =
         query_loop remote token cbql page_size (page + int m) (acc @ concat (map pg [0..<m]))
           \<lparr>events = events tr @ map (\<lambda>k. PROGRESS (page + int k) (length (pg k))) [0..<m],
            requests = requests tr
              @ map (\<lambda>k. page_request token cbql (page + int k) page_size) [0..<m]\<rparr>"
  using assms
proof (induction m)
  case 0
  show ?case by (cases tr) simp
next
  case (Suc m)
  let ?acc = "acc @ concat (map pg [0..<m])"
  let ?tr = "\<lparr>events = events tr @ map (\<lambda>k. PROGRESS (page + int k) (length (pg k))) [0..<m],
            requests = requests tr
              @ map (\<lambda>k. page_request token cbql (page + int k) page_size) [0..<m]\<rparr>"
  from Suc.prems obtain sz where
    m: "fetch_page remote token cbql page_size (page + int m) = Inr (pg m)"
      "page_size = Some sz" "\<not> int (length (pg m)) < sz"
    by auto
  have "query_loop remote token cbql page_size page acc tr =
        query_loop remote token cbql page_size (page + int m) ?acc ?tr"
    using Suc by simp
  also have "\<dots> = query_loop remote token cbql page_size (page + int m + 1) (?acc @ pg m)
      \<lparr>events = events ?tr @ [PROGRESS (page + int m) (length (pg m))],
       requests = requests ?tr @ [page_request token cbql (page + int m) page_size]\<rparr>"
    using m by (rule query_loop_full)
  finally show ?case by (simp add: ac_simps)
qed

lemma query_items_of_loop:
  assumes "query_loop remote (access_token hdrs) cbql page_size 1 []
             \<lparr>events = [START], requests = []\<rparr> = Some (r, tr)"
  shows "query_items remote hdrs cbql page_size =
     Some (case r of Inl (RateLimited retry) \<Rightarrow> Inl (RuntimeError (''RATE_LIMITED: '' @ str_int retry))
           | _ \<Rightarrow> r, tr)"
  using assms by (simp add: query_items_def split: sum.splits error.splits)

lemma run_until_short_page:
  assumes full: "\<forall>k<n. fetch_page remote (access_token hdrs) cbql (Some sz) (1 + int k) = Inr (pg k)
              \<and> \<not> int (length (pg k)) < sz"
    and last: "fetch_page remote (access_token hdrs) cbql (Some sz) (1 + int n) = Inr (pg n)"
    and short: "int (length (pg n)) < sz"
  shows "query_items remote hdrs cbql (Some sz) =
     Some (Inr \<lparr>totalCount = length (concat (map pg [0..<Suc n])),
                 items = concat (map pg [0..<Suc n])\<rparr>,
           \<lparr>events = START # map (\<lambda>k. PROGRESS (1 + int k) (length (pg k))) [0..<Suc n],
            requests = map (\<lambda>k. page_request (access_token hdrs) cbql (1 + int k) (Some sz))
              [0..<Suc n]\<rparr>)"
proof -
  let ?t = "access_token hdrs"
  let ?init = "\<lparr>events = [START], requests = []\<rparr>"
  let ?tr = "\<lparr>events = events ?init @ map (\<lambda>k. PROGRESS (1 + int k) (length (pg k))) [0..<n],
            requests = requests ?init
              @ map (\<lambda>k. page_request ?t cbql (1 + int k) (Some sz)) [0..<n]\<rparr>"
  have "query_loop remote ?t cbql (Some sz) 1 [] ?init =
        query_loop remote ?t cbql (Some sz) (1 + int n) ([] @ concat (map pg [0..<n])) ?tr"
    using full by (intro query_loop_full_pages) simp
  also have "\<dots> = Some (Inr \<lparr>totalCount = length (([] @ concat (map pg [0..<n])) @ pg n),
                 items = ([] @ concat (map pg [0..<n])) @ pg n\<rparr>,
           \<lparr>events = events ?tr @ [PROGRESS (1 + int n) (length (pg n))],
            requests = requests ?tr @ [page_request ?t cbql (1 + int n) (Some sz)]\<rparr>)"
    using last short by (rule query_loop_short)
  finally show ?thesis
    by (simp add: query_items_of_loop)
qed

lemma run_until_error:
  assumes full: "\<forall>k<n. fetch_page remote (access_token hdrs) cbql page_size (1 + int k) = Inr (pg k)
              \<and> (\<exists>sz. page_size = Some sz \<and> \<not> int (length (pg k)) < sz)"
    and last: "fetch_page remote (access_token hdrs) cbql page_size (1 + int n) = Inl e"
  shows "query_loop remote (access_token hdrs) cbql page_size 1 []
           \<lparr>events = [START], requests = []\<rparr> =
     Some (Inl e,
           \<lparr>events = START # map (\<lambda>k. PROGRESS (1 + int k) (length (pg k))) [0..<n],
            requests = map (\<lambda>k. page_request (access_token hdrs) cbql (1 + int k) page_size)
              [0..<Suc n]\<rparr>)"
proof -
  let ?t = "access_token hdrs"
  let ?init = "\<lparr>events = [START], requests = []\<rparr>"
  let ?tr = "\<lparr>events = events ?init @ map (\<lambda>k. PROGRESS (1 + int k) (length (pg k))) [0..<n],
            requests = requests ?init
              @ map (\<lambda>k. page_request ?t cbql (1 + int k) page_size) [0..<n]\<rparr>"
  have "query_loop remote ?t cbql page_size 1 [] ?init =
        query_loop remote ?t cbql page_size (1 + int n) ([] @ concat (map pg [0..<n])) ?tr"
    using full by (rule query_loop_full_pages)
  also have "\<dots> = Some (Inl e,
      ?tr\<lparr>requests := requests ?tr @ [page_request ?t cbql (1 + int n) page_size]\<rparr>)"
    using last by (rule query_loop_error)
  finally show ?thesis by simp
qed

text \<open>
  What a run that returns has sent: the requests for the pages from \<open>page\<close> on, one after
  the other, each with the text \<open>cbql\<close> that the tool was called with.
\<close>

lemma query_loop_requests:
  assumes ret: "query_loop remote token cbql page_size page acc tr = Some y"
  shows "\<exists>n. requests (snd y) =
           requests tr @ map (\<lambda>k. page_request token cbql (page + int k) page_size) [0..<Suc n]"
proof (rule query_loop.raw_induct [where P = "\<lambda>remote token cbql page_size page acc tr y.
    \<exists>n. requests (snd y) =
      requests tr @ map (\<lambda>k. page_request token cbql (page + int k) page_size) [0..<Suc n]",
    OF _ ret])
  fix f remote token cbql page_size page acc tr y
  assume IH: "\<And>remote token cbql page_size page acc tr y.
      f remote token cbql page_size page acc tr = Some y \<Longrightarrow>
      \<exists>n. requests (snd y) =
        requests tr @ map (\<lambda>k. page_request token cbql (page + int k) page_size) [0..<Suc n]"
    and eq: "(let tr1 = tr\<lparr>requests := requests tr @ [page_request token cbql page page_size]\<rparr>
      in case fetch_page remote token cbql page_size page of
           Inl e \<Rightarrow> Some (Inl e, tr1)
         | Inr its \<Rightarrow>
             (let all_items' = acc @ its;
                  tr2 = tr1\<lparr>events := events tr1 @ [PROGRESS page (length its)]\<rparr>
              in case page_size of
                   None \<Rightarrow> Some (Inl TypeError, tr2)
                 | Some sz \<Rightarrow>
                     if int (length its) < sz
                     then Some (Inr \<lparr>totalCount = length all_items', items = all_items'\<rparr>, tr2)
                     else f remote token cbql page_size (page + 1) all_items' tr2)) = Some y"
  let ?req = "\<lambda>p. page_request token cbql p page_size"
  let ?goal = "\<exists>n. requests (snd y) = requests tr @ map (\<lambda>k. ?req (page + int k)) [0..<Suc n]"
  have one: "requests (snd y) = requests tr @ [?req page] \<Longrightarrow> ?goal"
  proof -
    assume "requests (snd y) = requests tr @ [?req page]"
    then have "requests (snd y) = requests tr @ map (\<lambda>k. ?req (page + int k)) [0..<Suc 0]"
      by simp
    then show ?goal by blast
  qed
  show ?goal
  proof (cases "fetch_page remote token cbql page_size page")
    case (Inl e)
    with eq show ?thesis by (intro one) (auto simp: Let_def)
  next
    case (Inr its)
    show ?thesis
    proof (cases page_size)
      case None
      with Inr eq show ?thesis by (intro one) (auto simp: Let_def)
    next
      case (Some sz)
      show ?thesis
      proof (cases "int (length its) < sz")
        case True
        with Inr Some eq show ?thesis by (intro one) (auto simp: Let_def)
      next
        case False
        let ?tr2 = "tr\<lparr>requests := requests tr @ [?req page],
                       events := events tr @ [PROGRESS page (length its)]\<rparr>"
        from False Inr Some eq have "f remote token cbql page_size (page + 1) (acc @ its) ?tr2 = Some y"
          by (simp add: Let_def)
        from IH [OF this] obtain n where
          "requests (snd y) = requests ?tr2 @ map (\<lambda>k. ?req (page + 1 + int k)) [0..<Suc n]"
          by blast
        then have "requests (snd y) =
            requests tr @ map (\<lambda>k. ?req (page + int k)) [0..<Suc (Suc n)]"
          by (simp add: map_upt_Suc [of _ "Suc n"] ac_simps del: upt_Suc)
        then show ?thesis by blast
      qed
    qed
  qed
qed




subsection \<open>The stub remote services\<close>

lemma request_stub:
  "request (stub_remote answer) token ''POST'' ''/v3/items/query''
     (json_body (page_request token cbql page page_size)) =
   request (\<lambda>r. answer page) token ''POST'' ''/v3/items/query''
     (json_body (page_request token cbql page page_size))"
  by (simp add: request_def stub_remote_def page_of_def page_request_def)

lemma fetch_page_stub_items:
  "answer page = items_response its \<Longrightarrow>
   fetch_page (stub_remote answer) token cbql page_size page = Inr its"
  by (simp add: fetch_page_def request_stub)
     (simp add: request_def items_response_def raise_for_status_def dict_get_def iterate_def)

lemma str_int_30: "str_int 30 = ''30''"
  by code_simp

lemma int_of_str_30: "int_of_str ''30'' = Inr 30"
  by (simp add: int_of_str_def isspace_int_def decimal_literal_def isdigit_def
      digit_value_def max_str_digits_def)

lemma request_stub_rate_limited:
  "answer page = rate_limit_response (Some ''30'') \<Longrightarrow>
   request (stub_remote answer) token ''POST'' ''/v3/items/query''
     (json_body (page_request token cbql page page_size)) = Inl (RateLimited 30)"
  by (simp add: request_stub)
     (simp add: request_def rate_limit_response_def retry_after_def int_of_str_30)

section \<open>The claims\<close>

subsection \<open>What reaches the gateway\<close>

text \<open>
  Every request of a run that returns is a page request with the text \<open>cbql\<close> exactly as
  the tool received it: \<open>query_items\<close> does not call \<open>validate_cbql\<close>, and nothing else
  in \<open>main.py\<close> does.
\<close>

lemma query_items_sends_cbql_as_given:
  assumes "query_items remote hdrs cbql page_size = Some (r, tr)"
  shows "\<exists>n. requests tr =
           map (\<lambda>k. page_request (access_token hdrs) cbql (1 + int k) page_size) [0..<Suc n]"
proof -
  from assms obtain r' where
    "query_loop remote (access_token hdrs) cbql page_size 1 []
       \<lparr>events = [START], requests = []\<rparr> = Some (r', tr)"
    by (auto simp: query_items_def split: option.splits sum.splits error.splits)
  from query_loop_requests [OF this] show ?thesis by simp
qed

lemma sql_text_rejected:
  "validate_cbql ''SELECT * FROM items'' = Inl (ValueError (forbidden_message ''SELECT''))"
  by (simp add: validate_cbql_def strip_def isspace_def FORBIDDEN_KEYWORDS_def upper_def
      upper_char_def)

lemma sql_text_never_returned: "validate_cbql q \<noteq> Inr ''SELECT * FROM items''"
proof
  assume "validate_cbql q = Inr ''SELECT * FROM items''"
  then have v: "strip q = ''SELECT * FROM items''"
    and kw: "\<forall>kw\<in>set FORBIDDEN_KEYWORDS. \<not> contains (upper q) kw"
    by (simp_all add: validate_cbql_Inr_iff)
  from strip_decomp [of q] obtain l r where q: "q = l @ strip q @ r" by blast
  have "contains (upper ''SELECT * FROM items'') ''SELECT''"
    by (simp add: upper_def upper_char_def)
  then have "contains (upper (l @ ''SELECT * FROM items'' @ r)) ''SELECT''"
    by (rule contains_upper_embed)
  with q v have "contains (upper q) ''SELECT''" by simp
  with kw show False by (simp add: FORBIDDEN_KEYWORDS_def)
qed

text \<open>
  C1. The claim: every query string that reaches the gateway as the \<open>queryString\<close> of a
  \<open>POST /v3/items/query\<close> has been returned by \<open>validate_cbql\<close>. The code at the input
  \<open>cbql = "SELECT * FROM items"\<close>, \<open>page_size = 500\<close>, with a remote service that has no
  items: the run returns normally after one request, the request carries the text as
  given, \<open>validate_cbql\<close> rejects that text, and no call of \<open>validate_cbql\<close> returns it.
\<close>

theorem query_items_forwards_raw_query:
  "query_items (stub_remote (\<lambda>p. items_response [])) hdrs ''SELECT * FROM items'' (Some 500) =
     Some (Inr \<lparr>totalCount = 0, items = []\<rparr>,
           \<lparr>events = [START, PROGRESS 1 0],
            requests = [page_request (access_token hdrs) ''SELECT * FROM items'' 1 (Some 500)]\<rparr>)
   \<and> json_body (page_request (access_token hdrs) ''SELECT * FROM items'' 1 (Some 500)) =
       Some (JObj [(''queryString'', JStr ''SELECT * FROM items''), (''page'', JInt 1),
         (''pageSize'', JInt 500)])
   \<and> validate_cbql ''SELECT * FROM items'' = Inl (ValueError (forbidden_message ''SELECT''))
   \<and> validate_cbql q \<noteq> Inr ''SELECT * FROM items''"
proof -
  let ?remote = "stub_remote (\<lambda>p. items_response [])"
  have "query_items ?remote hdrs ''SELECT * FROM items'' (Some 500) =
     Some (Inr \<lparr>totalCount = 0, items = []\<rparr>,
           \<lparr>events = [START, PROGRESS 1 0],
            requests = [page_request (access_token hdrs) ''SELECT * FROM items'' 1 (Some 500)]\<rparr>)"
    using run_until_short_page [where n = 0 and pg = "\<lambda>k. []" and remote = ?remote
        and hdrs = hdrs and cbql = "''SELECT * FROM items''" and sz = 500]
    by (simp add: fetch_page_stub_items)
  then show ?thesis
    by (simp add: sql_text_rejected sql_text_never_returned page_request_def)
qed

subsection \<open>Rate limiting\<close>

text \<open>
  C2. When the gateway raises \<open>RateLimited\<close> on page \<open>n + 1\<close>, which the run reaches after
  \<open>n\<close> pages that did not end the loop, \<open>query_items\<close> returns an exception and no
  result: the items of the pages before are in no returned value. The events and requests
  up to that point are the trace.
\<close>

theorem rate_limit_voids_aggregation:
  assumes full: "\<forall>k<n. fetch_page remote (access_token hdrs) cbql page_size (1 + int k) = Inr (pg k)
              \<and> (\<exists>sz. page_size = Some sz \<and> \<not> int (length (pg k)) < sz)"
    and limited: "request remote (access_token hdrs) ''POST'' ''/v3/items/query''
        (json_body (page_request (access_token hdrs) cbql (1 + int n) page_size))
          = Inl (RateLimited s)"
  shows "query_items remote hdrs cbql page_size =
     Some (Inl (RuntimeError (''RATE_LIMITED: '' @ str_int s)),
           \<lparr>events = START # map (\<lambda>k. PROGRESS (1 + int k) (length (pg k))) [0..<n],
            requests = map (\<lambda>k. page_request (access_token hdrs) cbql (1 + int k) page_size)
              [0..<Suc n]\<rparr>)"
proof -
  from limited have
    "fetch_page remote (access_token hdrs) cbql page_size (1 + int n) = Inl (RateLimited s)"
    by (simp add: fetch_page_def)
  with full have "query_loop remote (access_token hdrs) cbql page_size 1 []
           \<lparr>events = [START], requests = []\<rparr> =
     Some (Inl (RateLimited s),
           \<lparr>events = START # map (\<lambda>k. PROGRESS (1 + int k) (length (pg k))) [0..<n],
            requests = map (\<lambda>k. page_request (access_token hdrs) cbql (1 + int k) page_size)
              [0..<Suc n]\<rparr>)"
    by (rule run_until_error)
  then show ?thesis by (simp add: query_items_of_loop del: upt_Suc)
qed

theorem rate_limit_voids_aggregation_witness:
  "query_items
     (stub_remote (\<lambda>p. if p = 2 then rate_limit_response (Some ''30'')
                        else items_response (replicate 500 JNull)))
     (\<lambda>h. None) ''project = 1'' (Some 500) =
   Some (Inl (RuntimeError ''RATE_LIMITED: 30''),
         \<lparr>events = [START, PROGRESS 1 500],
          requests = [page_request None ''project = 1'' 1 (Some 500),
                      page_request None ''project = 1'' 2 (Some 500)]\<rparr>)"
proof -
  let ?remote = "stub_remote (\<lambda>p. if p = 2 then rate_limit_response (Some ''30'')
                        else items_response (replicate 500 JNull))"
  let ?hdrs = "\<lambda>h::string. None :: string option"
  have t: "access_token ?hdrs = None" by (simp add: access_token_def truthy_def)
  have full: "\<forall>k<1. fetch_page ?remote (access_token ?hdrs) ''project = 1'' (Some 500) (1 + int k)
                = Inr (replicate 500 JNull)
              \<and> (\<exists>sz. Some 500 = Some sz \<and> \<not> int (length (replicate 500 JNull)) < sz)"
    by (simp add: fetch_page_stub_items)
  have limited: "request ?remote (access_token ?hdrs) ''POST'' ''/v3/items/query''
        (json_body (page_request (access_token ?hdrs) ''project = 1'' (1 + int 1) (Some 500)))
          = Inl (RateLimited 30)"
    by (rule request_stub_rate_limited) simp
  from rate_limit_voids_aggregation [of 1 ?remote ?hdrs "''project = 1''" "Some 500"
      "\<lambda>k. replicate 500 JNull" 30, OF full limited]
  show ?thesis by (simp add: t str_int_30)
qed

subsection \<open>Pagination\<close>







subsection \<open>How a rate limit is reported\<close>

text \<open>
  The two handlers of \<open>RateLimited\<close> that the claim names do not write the same text:
  \<open>get_project_details\<close> puts the seconds right after the colon, \<open>query_items\<close> puts a
  space between them.
\<close>

lemma get_project_details_rate_limit_text:
  assumes "request remote (access_token hdrs) ''GET'' (''/v3/projects/'' @ str_int project_id)
             None = Inl (RateLimited s)"
  shows "get_project_details remote hdrs project_id =
           Inl (RuntimeError (''RATE_LIMITED:'' @ str_int s))"
  using assms by (simp add: get_project_details_def)

lemma query_items_rate_limit_text_differs:
  "''RATE_LIMITED: '' @ str_int s \<noteq> ''RATE_LIMITED:'' @ str_int s"
proof
  assume "''RATE_LIMITED: '' @ str_int s = ''RATE_LIMITED:'' @ str_int s"
  then have "length (''RATE_LIMITED: '' @ str_int s) = length (''RATE_LIMITED:'' @ str_int s)"
    by (rule arg_cong)
  then show False by simp
qed


subsection \<open>The retry-after value\<close>

text \<open>
  What the gateway raises for a response with status 429: \<open>RateLimited 30\<close> when there is
  no \<open>Retry-After\<close> header, \<open>RateLimited n\<close> when \<open>int()\<close> reads the header as \<open>n\<close>, and
  the \<open>ValueError\<close> of \<open>int()\<close> otherwise. No handler turns that \<open>ValueError\<close> into a
  default.
\<close>

lemma int_of_str_error: "int_of_str v = Inl e \<Longrightarrow> e = InvalidLiteral v"
  by (auto simp: int_of_str_def Let_def split: if_splits option.splits)

lemma request_429:
  assumes "status_code (remote \<lparr>authorization = token, http_method = meth, path = pth,
             json_body = js\<rparr>) = 429"
  shows "request remote token meth pth js =
     (case headers (remote \<lparr>authorization = token, http_method = meth, path = pth,
             json_body = js\<rparr>) ''Retry-After'' of
        None \<Rightarrow> Inl (RateLimited 30)
      | Some v \<Rightarrow> (case int_of_str v of
                    Inr n \<Rightarrow> Inl (RateLimited n)
                  | Inl e \<Rightarrow> Inl (InvalidLiteral v)))"
  using assms
  by (auto simp: request_def retry_after_def Let_def split: option.splits sum.splits
      dest: int_of_str_error)

lemma request_429_no_header:
  "request (\<lambda>r. rate_limit_response None) token meth pth js = Inl (RateLimited 30)"
  by (simp add: request_429 rate_limit_response_def)

lemma request_429_integer_header:
  "request (\<lambda>r. rate_limit_response (Some '' 120 '')) token meth pth js = Inl (RateLimited 120)"
  by (simp add: request_429 rate_limit_response_def)
     (simp add: int_of_str_def isspace_int_def decimal_literal_def isdigit_def
       digit_value_def max_str_digits_def)


subsection \<open>The validator\<close>

text \<open>
  In the theorems below a text \<open>q\<close> contains the key word \<open>kw\<close> ignoring case when
  \<open>contains (upper q) kw\<close>, which is the test \<open>kw in cbql.upper()\<close> of the code, and it
  contains a scope clause when \<open>SCOPE_PATTERN.search\<close> finds one. Any part of \<open>q\<close> whose
  capitals spell the key word is found by that test.
\<close>

lemma contains_upper_part:
  assumes "q = p @ w @ r" and "upper w = kw"
  shows "contains (upper q) kw"
proof -
  from assms have "upper q = upper p @ kw @ upper r" by (simp add: upper_append)
  then show ?thesis unfolding contains_iff by blast
qed







end
